theory Spec2Isabelle
  imports Complex_Main
begin

section \<open>Python values met by \<open>scripts/encode_textures.py\<close>\<close>

text \<open>
  The script is dynamically typed: what \<open>json.loads\<close> returns may be any JSON value, and
  calling \<open>.get\<close> on a value that is not a dict raises. Exceptions are values of type
  \<open>exn\<close>; a computation that may raise returns \<open>exn + 'a\<close> with \<open>Inl\<close> for the
  exception. Strings are \<open>string\<close>: sequences of characters with code points 0 to 255.
\<close>

datatype exn =
  AttributeError | TypeError | ValueError | OSError | UnicodeDecodeError | JSONDecodeError

text \<open>A Python float as far as the script looks at it: only its truth value is read.\<close>

datatype pyfloat = Finite rat | NegZero | PosInf | NegInf | NaN

datatype json =
  JNull
  | JBool bool
  | JInt int
  | JFloat pyfloat
  | JStr string
  | JArr "json list"
  | JObj "(string \<times> json) list"

text \<open>
  \<open>JObj kvs\<close> stands for the dict built by \<open>json.loads\<close>; a key is looked up with
  \<open>map_of\<close>. \<open>truthy\<close> is Python's \<open>bool(v)\<close>.
\<close>

fun float_truthy :: "pyfloat \<Rightarrow> bool" where
  "float_truthy (Finite r) = (r \<noteq> 0)"
| "float_truthy NegZero = False"
| "float_truthy PosInf = True"
| "float_truthy NegInf = True"
| "float_truthy NaN = True"

fun truthy :: "json \<Rightarrow> bool" where
  "truthy JNull = False"
| "truthy (JBool b) = b"
| "truthy (JInt i) = (i \<noteq> 0)"
| "truthy (JFloat f) = float_truthy f"
| "truthy (JStr s) = (s \<noteq> [])"
| "truthy (JArr xs) = (xs \<noteq> [])"
| "truthy (JObj kvs) = (kvs \<noteq> [])"

text \<open>\<open>a or b\<close>\<close>

definition py_or :: "json \<Rightarrow> json \<Rightarrow> json" where
  "py_or a b = (if truthy a then a else b)"

text \<open>\<open>v.get(k, d)\<close>; \<open>v.get(k)\<close> is \<open>py_get v k JNull\<close>.\<close>

fun py_get :: "json \<Rightarrow> string \<Rightarrow> json \<Rightarrow> exn + json" where
  "py_get (JObj kvs) k d = Inr (case map_of kvs k of None \<Rightarrow> d | Some v \<Rightarrow> v)"
| "py_get _ k d = Inl AttributeError"

text \<open>Decimal text of an integer, as an f-string prints it.\<close>

definition digit_char :: "nat \<Rightarrow> char" where
  "digit_char n = ''0123456789'' ! n"

fun digits :: "nat \<Rightarrow> string" where
  "digits n = (if n < 10 then [digit_char n] else digits (n div 10) @ [digit_char (n mod 10)])"

declare digits.simps [simp del]

definition str_int :: "int \<Rightarrow> string" where
  "str_int i = (if i < 0 then CHR ''-'' # digits (nat (- i)) else digits (nat i))"

text \<open>
  \<open>f"{v}"\<close> for a JSON value. The text of a float, a list or a dict is Python's \<open>repr\<close>,
  which is not modelled: it is the parameter \<open>repr\<close>.
\<close>

fun py_format :: "(json \<Rightarrow> string) \<Rightarrow> json \<Rightarrow> string" where
  "py_format repr (JStr s) = s"
| "py_format repr (JInt i) = str_int i"
| "py_format repr (JBool b) = (if b then ''True'' else ''False'')"
| "py_format repr JNull = ''None''"
| "py_format repr v = repr v"

text \<open>\<open>s.lower()\<close> and \<open>s.endswith(t)\<close>\<close>

definition lower_char :: "char \<Rightarrow> char" where
  "lower_char c =
     (let n = (of_char c :: nat)
      in if (65 \<le> n \<and> n \<le> 90) \<or> (192 \<le> n \<and> n \<le> 222 \<and> n \<noteq> 215)
         then char_of (n + 32) else c)"

definition lower :: "string \<Rightarrow> string" where
  "lower s = map lower_char s"

definition endswith :: "string \<Rightarrow> string \<Rightarrow> bool" where
  "endswith s t = (length t \<le> length s \<and> drop (length s - length t) s = t)"

section \<open>Paths (\<open>pathlib\<close>, POSIX flavour)\<close>

text \<open>
  A path is its root (\<open>''''\<close>, \<open>''/''\<close> or \<open>''//''\<close>) and its components. Building a
  path from text splits at \<open>/\<close> and drops empty components and single dots; double
  dots stay.
\<close>

record path =
  p_root :: string
  p_parts :: "string list"

fun split_sep :: "string \<Rightarrow> string list" where
  "split_sep [] = [[]]"
| "split_sep (c # cs) =
     (if c = CHR ''/'' then [] # split_sep cs
      else (case split_sep cs of [] \<Rightarrow> [[c]] | w # ws \<Rightarrow> (c # w) # ws))"

definition splitroot :: "string \<Rightarrow> string \<times> string" where
  "splitroot part =
     (if part \<noteq> [] \<and> hd part = CHR ''/'' then
        (let stripped = dropWhile (\<lambda>c. c = CHR ''/'') part
         in if length part - length stripped = 2 then (''//'', stripped) else (''/'', stripped))
      else ([], part))"

definition parse_parts :: "string \<Rightarrow> string \<times> string list" where
  "parse_parts s =
     (case splitroot s of (r, rel) \<Rightarrow> (r, filter (\<lambda>x. x \<noteq> [] \<and> x \<noteq> ''.'') (split_sep rel)))"

text \<open>\<open>Path(s)\<close>\<close>

definition Path :: "string \<Rightarrow> path" where
  "Path s = (case parse_parts s of (r, ps) \<Rightarrow> \<lparr>p_root = r, p_parts = ps\<rparr>)"

text \<open>\<open>p / key\<close>: an absolute right operand replaces the left one.\<close>

definition truediv :: "path \<Rightarrow> string \<Rightarrow> path" where
  "truediv p key =
     (case parse_parts key of (r, ps) \<Rightarrow>
        if r \<noteq> [] then \<lparr>p_root = r, p_parts = ps\<rparr>
        else \<lparr>p_root = p_root p, p_parts = p_parts p @ ps\<rparr>)"

fun join_sep :: "string list \<Rightarrow> string" where
  "join_sep [] = []"
| "join_sep [x] = x"
| "join_sep (x # y # ys) = x @ ''/'' @ join_sep (y # ys)"

text \<open>\<open>str(p)\<close>\<close>

definition str_path :: "path \<Rightarrow> string" where
  "str_path p =
     (if p_root p = [] \<and> p_parts p = [] then ''.'' else p_root p @ join_sep (p_parts p))"

text \<open>\<open>p.name\<close>, \<open>p.suffix\<close>, \<open>p.with_suffix(s)\<close>, \<open>p.parent\<close>\<close>

definition path_name :: "path \<Rightarrow> string" where
  "path_name p = (if p_parts p = [] then [] else last (p_parts p))"

definition rfind_dot :: "string \<Rightarrow> nat option" where
  "rfind_dot s =
     (if CHR ''.'' \<in> set s
      then Some (length s - 1 - length (takeWhile (\<lambda>c. c \<noteq> CHR ''.'') (rev s)))
      else None)"

definition name_suffix :: "string \<Rightarrow> string" where
  "name_suffix nm =
     (case rfind_dot nm of
        None \<Rightarrow> []
      | Some i \<Rightarrow> if 0 < i \<and> i < length nm - 1 then drop i nm else [])"

definition path_suffix :: "path \<Rightarrow> string" where
  "path_suffix p = name_suffix (path_name p)"

definition with_suffix :: "path \<Rightarrow> string \<Rightarrow> exn + path" where
  "with_suffix p suffix =
     (if CHR ''/'' \<in> set suffix then Inl ValueError
      else if (suffix \<noteq> [] \<and> hd suffix \<noteq> CHR ''.'') \<or> suffix = ''.'' then Inl ValueError
      else let nm = path_name p in
        if nm = [] then Inl ValueError
        else let old_suffix = path_suffix p;
                 nm' = (if old_suffix = [] then nm @ suffix
                        else take (length nm - length old_suffix) nm @ suffix)
             in Inr (p\<lparr>p_parts := butlast (p_parts p) @ [nm']\<rparr>))"

definition parent :: "path \<Rightarrow> path" where
  "parent p = (if p_parts p = [] then p else p\<lparr>p_parts := butlast (p_parts p)\<rparr>)"


section \<open>The file system and the encoder process\<close>

text \<open>
  What the script observes of the file system: \<open>p.exists()\<close>, \<open>p.is_file()\<close> and
  \<open>p.stat().st_mtime\<close>.

  \<open>exists\<close> and \<open>is_file\<close> call \<open>stat\<close> themselves (\<open>pathlib\<close> of Python 3.11,
  and so up to 3.13). They answer \<open>False\<close> when it
  fails with \<open>ENOENT\<close>, \<open>ENOTDIR\<close>, \<open>EBADF\<close> or \<open>ELOOP\<close>, and let every other
  \<open>OSError\<close> through (a name that is too long, a directory that may not be searched):
  \<open>Inl\<close> is the exception raised, \<open>Inr\<close> the answer.

  For \<open>stat_mtime\<close>, \<open>None\<close> stands for \<open>stat\<close> raising \<open>OSError\<close>. Modification
  times are the float values of \<open>st_mtime\<close>, which are rationals.
\<close>

record world =
  path_exists :: "path \<Rightarrow> exn + bool"
  is_file :: "path \<Rightarrow> exn + bool"
  stat_mtime :: "path \<Rightarrow> rat option"

section \<open>Staleness: \<open>should_encode\<close>\<close>

text \<open>
  The call of \<open>exists\<close> in line 42 stands before the \<open>try\<close>: what it raises leaves
  the function. The two calls of \<open>stat\<close> stand inside it.
\<close>

definition should_encode :: "world \<Rightarrow> path \<Rightarrow> path \<Rightarrow> exn + bool" where
  "should_encode w asset_path output_path =
     (case path_exists w output_path of
        Inl e \<Rightarrow> Inl e
      | Inr ex \<Rightarrow>
          if \<not> ex then Inr True
          else (case stat_mtime w output_path of
                  None \<Rightarrow> Inr True
                | Some out_mtime \<Rightarrow>
                   (case stat_mtime w asset_path of
                      None \<Rightarrow> Inr True
                    | Some asset_mtime \<Rightarrow> Inr (out_mtime < asset_mtime))))"

section \<open>The encoder command: \<open>build_command\<close>\<close>

definition build_command ::
  "path \<Rightarrow> path \<Rightarrow> path \<Rightarrow> bool \<Rightarrow> bool \<Rightarrow> bool \<Rightarrow> bool \<Rightarrow> string list" where
  "build_command basisu asset_path output_path srgb normal_map flip_y generate_mips =
     (let cmd0 = [str_path basisu,
                  ''-ktx2'',
                  ''-ktx2_no_zstandard'',
                  if normal_map then ''-uastc'' else ''-etc1s'',
                  if srgb then ''-srgb'' else ''-linear''];
          cmd1 = (if flip_y then cmd0 @ [''-y_flip''] else cmd0);
          cmd2 = (if generate_mips then cmd1 @ [''-mipmap''] else cmd1)
      in cmd2 @ [''-quality'',
                 if normal_map then ''50'' else ''80'',
                 ''-effort'',
                 ''4'',
                 ''-file'',
                 str_path asset_path,
                 ''-output_file'',
                 str_path output_path,
                 ''-no_status_output''])"

section \<open>One metadata file: lines 111 to 139 of \<open>main\<close>\<close>

definition LDR_EXTS :: "string set" where
  "LDR_EXTS = {''.png'', ''.jpg'', ''.jpeg'', ''.tga'', ''.bmp'', ''.gif'', ''.tif'', ''.tiff''}"

text \<open>
  A metadata file as the loop meets it: the path \<open>rglob\<close> yields, and what
  \<open>json.loads(meta_path.read_text(encoding="utf-8"))\<close> does on it, which is to raise
  (\<open>JSONDecodeError\<close> for text that is not JSON, \<open>UnicodeDecodeError\<close> for bytes that
  are not UTF-8, \<open>OSError\<close> for a file that cannot be read) or to return a value.
\<close>

type_synonym meta_file = "path \<times> (exn + json)"

record task =
  asset_path :: path
  output_path :: path
  srgb :: bool
  normal_map :: bool
  flip_y :: bool
  generate_mips :: bool

text \<open>\<open>(meta.get("import") or {}).get("texture") or {}\<close>\<close>

definition import_settings :: "json \<Rightarrow> exn + json" where
  "import_settings meta =
     (case py_get meta ''import'' JNull of
        Inl e \<Rightarrow> Inl e
      | Inr imp \<Rightarrow>
         (case py_get (py_or imp (JObj [])) ''texture'' JNull of
            Inl e \<Rightarrow> Inl e
          | Inr tex \<Rightarrow> Inr (py_or tex (JObj []))))"

text \<open>\<open>bool(import_settings.get(k, d))\<close>\<close>

definition setting :: "json \<Rightarrow> string \<Rightarrow> bool \<Rightarrow> exn + bool" where
  "setting s k d = (case py_get s k (JBool d) of Inl e \<Rightarrow> Inl e | Inr v \<Rightarrow> Inr (truthy v))"

text \<open>Line 129: \<open>cache_dir / f"{guid}.ktx2"\<close>\<close>

definition cache_entry :: "(json \<Rightarrow> string) \<Rightarrow> path \<Rightarrow> json \<Rightarrow> path" where
  "cache_entry repr cache_dir guid = truediv cache_dir (py_format repr guid @ ''.ktx2'')"

text \<open>
  Lines 111 to 129: from a metadata file to the work it asks for. \<open>Inr None\<close> is a
  \<open>continue\<close>; only \<open>JSONDecodeError\<close> is caught.
\<close>

definition read_task :: "(json \<Rightarrow> string) \<Rightarrow> path \<Rightarrow> meta_file \<Rightarrow> exn + task option" where
  "read_task repr cache_dir mf =
     (case mf of (meta_path, loaded) \<Rightarrow>
      (case loaded of
         Inl e \<Rightarrow> if e = JSONDecodeError then Inr None else Inl e
       | Inr meta \<Rightarrow>
      (case py_get meta ''type'' JNull of
         Inl e \<Rightarrow> Inl e
       | Inr ty \<Rightarrow>
      if ty \<noteq> JStr ''texture'' then Inr None else
      (case py_get meta ''guid'' JNull of
         Inl e \<Rightarrow> Inl e
       | Inr guid \<Rightarrow>
      if \<not> truthy guid then Inr None else
      (case with_suffix meta_path [] of
         Inl e \<Rightarrow> Inl e
       | Inr asset \<Rightarrow>
      if lower (path_suffix asset) \<notin> LDR_EXTS then Inr None else
      (case import_settings meta of
         Inl e \<Rightarrow> Inl e
       | Inr s \<Rightarrow>
      (case setting s ''srgb'' True of
         Inl e \<Rightarrow> Inl e
       | Inr sr \<Rightarrow>
      (case setting s ''normalMap'' False of
         Inl e \<Rightarrow> Inl e
       | Inr nm \<Rightarrow>
      (case setting s ''flipY'' False of
         Inl e \<Rightarrow> Inl e
       | Inr fy \<Rightarrow>
      (case setting s ''generateMipmaps'' True of
         Inl e \<Rightarrow> Inl e
       | Inr gm \<Rightarrow>
         Inr (Some \<lparr>asset_path = asset,
                    output_path = cache_entry repr cache_dir guid,
                    srgb = sr, normal_map = nm, flip_y = fy,
                    generate_mips = gm\<rparr>)))))))))))"

text \<open>
  The encoder is any program. It may fail to start (\<open>Inl\<close>, the exception that
  \<open>subprocess.run\<close> raises then); otherwise it exits with a status, having written bytes
  to its standard error, and it may change the file system as it likes. \<open>stderr_text\<close> is
  those bytes decoded as \<open>text=True\<close> decodes them, \<open>None\<close> when they do not decode.
\<close>

record exited =
  exit_code :: int
  stderr_text :: "string option"

type_synonym encoder = "string list \<Rightarrow> world \<Rightarrow> (exn + exited) \<times> world"

text \<open>
  \<open>subprocess.run(cmd, stdout=subprocess.DEVNULL, stderr=subprocess.PIPE, text=True)\<close>:
  it returns the exit status and the decoded standard error, and raises
  \<open>UnicodeDecodeError\<close> when the bytes do not decode.
\<close>

record completed =
  returncode :: int
  stderr :: string

definition subprocess_run :: "encoder \<Rightarrow> string list \<Rightarrow> world \<Rightarrow> (exn + completed) \<times> world" where
  "subprocess_run enc cmd w =
     (case enc cmd w of
        (Inl e, w') \<Rightarrow> (Inl e, w')
      | (Inr x, w') \<Rightarrow>
          (case stderr_text x of
             None \<Rightarrow> (Inl UnicodeDecodeError, w')
           | Some err \<Rightarrow> (Inr \<lparr>returncode = exit_code x, stderr = err\<rparr>, w')))"

text \<open>One finished encoder process, with the file system before and after it.\<close>

record call =
  call_task :: task
  call_cmd :: "string list"
  call_before :: world
  call_result :: completed
  call_after :: world

text \<open>
  The state of a run: the two counters, the lines printed to standard error, the encoder
  processes run so far, and the file system.
\<close>

record run_state =
  encoded :: int
  skipped :: int
  err_lines :: "string list"
  calls :: "call list"
  fs :: world

definition failure_line :: "path \<Rightarrow> string \<Rightarrow> string" where
  "failure_line asset err = ''Failed: '' @ str_path asset @ [CHR 0x0A] @ err"

text \<open>Lines 130 to 139.\<close>

definition process_task :: "encoder \<Rightarrow> path \<Rightarrow> run_state \<Rightarrow> task \<Rightarrow> exn + run_state" where
  "process_task run basisu st t =
     (case should_encode (fs st) (asset_path t) (output_path t) of
        Inl e \<Rightarrow> Inl e
      | Inr stale \<Rightarrow>
      if \<not> stale
      then Inr (st\<lparr>skipped := skipped st + 1\<rparr>)
      else
        let cmd = build_command basisu (asset_path t) (output_path t)
                    (srgb t) (normal_map t) (flip_y t) (generate_mips t)
        in (case subprocess_run run cmd (fs st) of
              (Inl e, w') \<Rightarrow> Inl e
            | (Inr result, w') \<Rightarrow>
                let st' = st\<lparr>fs := w',
                             calls := calls st @
                               [\<lparr>call_task = t, call_cmd = cmd, call_before = fs st,
                                 call_result = result, call_after = w'\<rparr>]\<rparr>
                in if returncode result \<noteq> 0
                   then Inr (st'\<lparr>err_lines := err_lines st' @
                                    [failure_line (asset_path t) (stderr result)]\<rparr>)
                   else Inr (st'\<lparr>encoded := encoded st' + 1\<rparr>)))"

definition loop_body ::
  "encoder \<Rightarrow> (json \<Rightarrow> string) \<Rightarrow> path \<Rightarrow> path \<Rightarrow> run_state \<Rightarrow> meta_file \<Rightarrow> exn + run_state" where
  "loop_body run repr basisu cache_dir st mf =
     (case read_task repr cache_dir mf of
        Inl e \<Rightarrow> Inl e
      | Inr None \<Rightarrow> Inr st
      | Inr (Some t) \<Rightarrow> process_task run basisu st t)"

section \<open>The two loops of \<open>main\<close>\<close>

text \<open>The inner loop, over the metadata files of one asset directory.\<close>

fun scan_metas ::
  "encoder \<Rightarrow> (json \<Rightarrow> string) \<Rightarrow> path \<Rightarrow> path \<Rightarrow> run_state \<Rightarrow> meta_file list
     \<Rightarrow> exn + run_state" where
  "scan_metas run repr basisu cache_dir st [] = Inr st"
| "scan_metas run repr basisu cache_dir st (mf # mfs) =
     (case loop_body run repr basisu cache_dir st mf of
        Inl e \<Rightarrow> Inl e
      | Inr st' \<Rightarrow> scan_metas run repr basisu cache_dir st' mfs)"

text \<open>
  What a run is given from outside: \<open>Path(args.project).resolve()\<close>, \<open>args.basisu\<close>
  (the option, or the environment variable \<open>CRESCENT_BASISU_PATH\<close>, or empty),
  \<open>Path(__file__).resolve()\<close>, what \<open>load_project\<close> does on a path (open the file
  and \<open>json.load\<close> it), what \<open>mkdir(parents=True, exist_ok=True)\<close> does, the
  metadata files \<open>rglob("*.cmeta")\<close> yields under a directory, each with what loading
  it does, the encoder, and Python's \<open>repr\<close>.
\<close>

record env =
  project_arg :: path
  basisu_arg :: string
  script_file :: path
  load_project :: "path \<Rightarrow> exn + json"
  mkdir :: "path \<Rightarrow> world \<Rightarrow> exn + world"
  rglob_cmeta :: "path \<Rightarrow> meta_file list"
  run_subprocess :: encoder
  py_repr :: "json \<Rightarrow> string"

text \<open>The outer loop, lines 107 to 139.\<close>

fun scan_dirs :: "env \<Rightarrow> path \<Rightarrow> path \<Rightarrow> run_state \<Rightarrow> path list \<Rightarrow> exn + run_state" where
  "scan_dirs env basisu cache_dir st [] = Inr st"
| "scan_dirs env basisu cache_dir st (assets_dir # ds) =
     (case path_exists (fs st) assets_dir of
        Inl e \<Rightarrow> Inl e
      | Inr ex \<Rightarrow>
          if \<not> ex then scan_dirs env basisu cache_dir st ds
          else (case scan_metas (run_subprocess env) (py_repr env) basisu cache_dir st
                       (rglob_cmeta env assets_dir) of
                  Inl e \<Rightarrow> Inl e
                | Inr st' \<Rightarrow> scan_dirs env basisu cache_dir st' ds))"

section \<open>\<open>main\<close> and what comes before the loops\<close>








definition start_state :: "world \<Rightarrow> run_state" where
  "start_state w = \<lparr>encoded = 0, skipped = 0, err_lines = [], calls = [], fs = w\<rparr>"



section \<open>Notions the statements below use\<close>

text \<open>
  A successful encode as the specification describes it: the encoder creates or overwrites
  the file named after \<open>-output_file\<close> and touches nothing else.
\<close>

definition write_file :: "world \<Rightarrow> path \<Rightarrow> rat \<Rightarrow> world" where
  "write_file w p t =
     w\<lparr>path_exists := (path_exists w)(p := Inr True),
       is_file := (is_file w)(p := Inr True),
       stat_mtime := (stat_mtime w)(p := Some t)\<rparr>"

text \<open>
  An encoder process that succeeded: exit status 0, the source's modification time was
  retrievable, and the process wrote the output file, and only it, with a modification
  time not earlier than the source's.
\<close>

definition call_ok :: "call \<Rightarrow> bool" where
  "call_ok c =
     (returncode (call_result c) = 0 \<and>
      (case stat_mtime (call_before c) (asset_path (call_task c)) of
         None \<Rightarrow> False
       | Some t_asset \<Rightarrow>
          (case stat_mtime (call_after c) (output_path (call_task c)) of
             None \<Rightarrow> False
           | Some t_out \<Rightarrow>
               t_asset \<le> t_out \<and>
               call_after c = write_file (call_before c) (output_path (call_task c)) t_out)))"

text \<open>
  The candidate records: the metadata files that pass every filter of lines 111 to 122,
  in the asset directories that exist.
\<close>

fun tasks_of :: "(json \<Rightarrow> string) \<Rightarrow> path \<Rightarrow> meta_file list \<Rightarrow> task list" where
  "tasks_of repr cache_dir [] = []"
| "tasks_of repr cache_dir (mf # mfs) =
     (case read_task repr cache_dir mf of
        Inr (Some t) \<Rightarrow> t # tasks_of repr cache_dir mfs
      | _ \<Rightarrow> tasks_of repr cache_dir mfs)"

fun candidates :: "env \<Rightarrow> path \<Rightarrow> world \<Rightarrow> path list \<Rightarrow> task list" where
  "candidates env cache_dir w [] = []"
| "candidates env cache_dir w (d # ds) =
     (if path_exists w d = Inr True then tasks_of (py_repr env) cache_dir (rglob_cmeta env d)
      else [])
     @ candidates env cache_dir w ds"









text \<open>For the proofs: sources, entries that are up to date, and how a run moves the file system.\<close>

definition is_ldr :: "path \<Rightarrow> bool" where
  "is_ldr p = (lower (path_suffix p) \<in> LDR_EXTS)"

definition wf_task :: "task \<Rightarrow> bool" where
  "wf_task t = (is_ldr (asset_path t) \<and> \<not> is_ldr (output_path t))"

definition fresh :: "world \<Rightarrow> task \<Rightarrow> bool" where
  "fresh w t = (should_encode w (asset_path t) (output_path t) = Inr False)"

definition evolves :: "world \<Rightarrow> world \<Rightarrow> bool" where
  "evolves w w' =
     ((\<forall>p. path_exists w' p = path_exists w p \<or> path_exists w' p = Inr True) \<and>
      (\<forall>p. path_exists w p = Inr True \<longrightarrow> path_exists w' p = Inr True) \<and>
      (\<forall>t. wf_task t \<and> fresh w t \<longrightarrow> fresh w' t))"

section \<open>A small project, for concrete runs\<close>

text \<open>
  The project \<open>/proj\<close> with one asset directory and the textures \<open>tex.png\<close>, modified at
  time 5, and \<open>wall.jpg\<close>, modified at time 6; no cache entry exists yet. The encoder is
  \<open>/opt/basisu\<close>, and the project file is the empty object, so that the asset directory
  and the library are the default ones. A file name may have 255 characters: on a longer
  one \<open>stat\<close> fails with \<open>ENAMETOOLONG\<close>, which \<open>exists\<close> and \<open>is_file\<close> let through.
\<close>

definition demo_repr :: "json \<Rightarrow> string" where
  "demo_repr v = []"

definition demo_basisu :: path where
  "demo_basisu = Path ''/opt/basisu''"

definition demo_library :: path where
  "demo_library = Path ''/proj/Library''"

definition demo_cache :: path where
  "demo_cache = Path ''/proj/Library/ImportCache''"

definition demo_assets :: path where
  "demo_assets = Path ''/proj/Assets''"

definition demo_meta :: "string \<Rightarrow> json \<Rightarrow> json \<Rightarrow> meta_file" where
  "demo_meta file guid imp =
     (Path (''/proj/Assets/'' @ file @ ''.cmeta''),
      Inr (JObj [(''type'', JStr ''texture''), (''guid'', guid), (''import'', imp)]))"

definition demo_task :: "string \<Rightarrow> string \<Rightarrow> bool \<Rightarrow> task" where
  "demo_task file entry nm =
     \<lparr>asset_path = Path (''/proj/Assets/'' @ file),
      output_path = Path (''/proj/Library/ImportCache/'' @ entry),
      srgb = True, normal_map = nm, flip_y = False, generate_mips = True\<rparr>"

definition material_meta :: meta_file where
  "material_meta =
     (Path ''/proj/Assets/stone.mat.cmeta'',
      Inr (JObj [(''type'', JStr ''material''), (''guid'', JStr ''m1'')]))"

definition no_guid_meta :: meta_file where
  "no_guid_meta = (Path ''/proj/Assets/wall.png.cmeta'', Inr (JObj [(''type'', JStr ''texture'')]))"

definition empty_guid_meta :: meta_file where
  "empty_guid_meta =
     (Path ''/proj/Assets/wall.png.cmeta'',
      Inr (JObj [(''type'', JStr ''texture''), (''guid'', JStr [])]))"

text \<open>A GUID of 300 letters, and the record of \<open>tex.png\<close> with it.\<close>

definition long_guid :: string where
  "long_guid = replicate 300 (CHR ''g'')"


definition name_too_long :: "path \<Rightarrow> bool" where
  "name_too_long p = list_ex (\<lambda>x. 255 < length x) (p_parts p)"

definition demo_world :: world where
  "demo_world =
     \<lparr>path_exists = (\<lambda>p. if name_too_long p then Inl OSError
                          else Inr (p = Path ''/proj/Project.cproj'' \<or> p = Path ''/proj/Assets''
                                    \<or> p = Path ''/proj/Assets/tex.png''
                                    \<or> p = Path ''/proj/Assets/wall.jpg''
                                    \<or> p = Path ''/opt/basisu'')),
      is_file = (\<lambda>p. if name_too_long p then Inl OSError
                      else Inr (p = Path ''/proj/Project.cproj''
                                \<or> p = Path ''/proj/Assets/tex.png''
                                \<or> p = Path ''/proj/Assets/wall.jpg''
                                \<or> p = Path ''/opt/basisu'')),
      stat_mtime = (\<lambda>p. if p = Path ''/proj/Assets/tex.png'' then Some 5
                         else if p = Path ''/proj/Assets/wall.jpg'' then Some 6 else None)\<rparr>"


text \<open>
  Five encoders: one that writes its output file with modification time \<open>t\<close> and exits
  with 0; one that exits with 2; one that exits with 2 on \<open>tex.png\<close> and does as the first
  on every other file; one that exits with 2 and leaves bytes on its standard error that do
  not decode; and one that cannot be started.
\<close>

definition writing_encoder :: "rat \<Rightarrow> encoder" where
  "writing_encoder t cmd w =
     (Inr \<lparr>exit_code = 0, stderr_text = Some []\<rparr>,
      write_file w (Path (cmd ! (length cmd - 2))) t)"

definition failing_encoder :: encoder where
  "failing_encoder cmd w = (Inr \<lparr>exit_code = 2, stderr_text = Some ''bad image''\<rparr>, w)"




definition demo_env :: "encoder \<Rightarrow> meta_file list \<Rightarrow> env" where
  "demo_env run mfs =
     \<lparr>project_arg = Path ''/proj'',
      basisu_arg = ''/opt/basisu'',
      script_file = Path ''/repo/scripts/encode_textures.py'',
      load_project = (\<lambda>p. Inr (JObj [])),
      mkdir = (\<lambda>p w. Inr (w\<lparr>path_exists := (path_exists w)(p := Inr True)\<rparr>)),
      rglob_cmeta = (\<lambda>d. if d = Path ''/proj/Assets'' then mfs else []),
      run_subprocess = run,
      py_repr = demo_repr\<rparr>"

text \<open>The state after a first run in which \<open>tex.png\<close> was encoded at time 7.\<close>

definition demo_first_run :: run_state where
  "demo_first_run =
     \<lparr>encoded = 1, skipped = 0, err_lines = [],
      calls = [\<lparr>call_task = demo_task ''tex.png'' ''abc123.ktx2'' False,
                call_cmd = build_command demo_basisu (Path ''/proj/Assets/tex.png'')
                             (Path ''/proj/Library/ImportCache/abc123.ktx2'') True False False True,
                call_before = demo_world,
                call_result = \<lparr>returncode = 0, stderr = []\<rparr>,
                call_after = write_file demo_world (Path ''/proj/Library/ImportCache/abc123.ktx2'') 7\<rparr>],
      fs = write_file demo_world (Path ''/proj/Library/ImportCache/abc123.ktx2'') 7\<rparr>"


section \<open>Auxiliary facts\<close>

lemmas path_eval = Path_def truediv_def parse_parts_def splitroot_def str_path_def
  path_name_def path_suffix_def name_suffix_def rfind_dot_def with_suffix_def parent_def

lemmas text_eval = lower_def lower_char_def char_of_def bit_Suc_0_iff LDR_EXTS_def endswith_def

lemmas demo_paths = demo_basisu_def demo_library_def demo_cache_def demo_assets_def

subsection \<open>Paths\<close>

lemma split_sep_nonempty [simp]: "split_sep s \<noteq> []"
  by (induction s) (auto split: list.splits)

lemma split_sep_plain: "CHR ''/'' \<notin> set s \<Longrightarrow> split_sep s = [s]"
  by (induction s) auto

lemma split_sep_append:
  "CHR ''/'' \<notin> set t \<Longrightarrow> split_sep (s @ t) = butlast (split_sep s) @ [last (split_sep s) @ t]"
proof (induction s)
  case Nil
  then show ?case by (simp add: split_sep_plain)
next
  case (Cons c s)
  then show ?case
    by (cases "split_sep s") (auto split: list.splits)
qed

lemma splitroot_rel_append:
  assumes "t \<noteq> []" "hd t \<noteq> CHR ''/''"
  shows "snd (splitroot (s @ t)) = snd (splitroot s) @ t"
proof (cases "s = []")
  case True
  with assms show ?thesis by (simp add: splitroot_def)
next
  case False
  have dw: "dropWhile (\<lambda>c. c = CHR ''/'') (s @ t) = dropWhile (\<lambda>c. c = CHR ''/'') s @ t"
    using assms by (cases t) (auto simp: dropWhile_append)
  show ?thesis using False dw by (auto simp: splitroot_def Let_def)
qed

lemma last_filter_keep:
  "xs \<noteq> [] \<Longrightarrow> P (last xs) \<Longrightarrow> filter P xs \<noteq> [] \<and> last (filter P xs) = last xs"
  by (induction xs) (auto split: if_splits)

text \<open>Whatever the GUID, the last component of a cache entry ends in \<open>.ktx2\<close>.\<close>

lemma parse_parts_ktx2:
  "\<exists>x. snd (parse_parts (s @ ''.ktx2'')) \<noteq> [] \<and>
       last (snd (parse_parts (s @ ''.ktx2''))) = x @ ''.ktx2''"
proof -
  obtain rel where rel: "snd (splitroot (s @ ''.ktx2'')) = rel @ ''.ktx2''"
    using splitroot_rel_append[of "''.ktx2''" s] by simp
  have l: "last (split_sep (rel @ ''.ktx2'')) = last (split_sep rel) @ ''.ktx2''"
    by (simp add: split_sep_append)
  have "filter (\<lambda>x. x \<noteq> [] \<and> x \<noteq> ''.'') (split_sep (rel @ ''.ktx2'')) \<noteq> [] \<and>
        last (filter (\<lambda>x. x \<noteq> [] \<and> x \<noteq> ''.'') (split_sep (rel @ ''.ktx2'')))
          = last (split_sep (rel @ ''.ktx2''))"
    by (rule last_filter_keep) (simp_all add: l)
  then show ?thesis using rel l by (auto simp: parse_parts_def split: prod.splits)
qed

lemma path_name_truediv:
  "snd (parse_parts key) \<noteq> [] \<Longrightarrow> path_name (truediv p key) = last (snd (parse_parts key))"
  by (auto simp: truediv_def path_name_def split: prod.splits)

lemma name_suffix_ktx2: "name_suffix (x @ ''.ktx2'') = (if x = [] then [] else ''.ktx2'')"
  by (simp add: name_suffix_def rfind_dot_def)

lemma ktx2_not_ldr: "lower (path_suffix (cache_entry repr cache_dir guid)) \<notin> LDR_EXTS"
proof -
  obtain x where x: "snd (parse_parts (py_format repr guid @ ''.ktx2'')) \<noteq> []"
     "last (snd (parse_parts (py_format repr guid @ ''.ktx2''))) = x @ ''.ktx2''"
    using parse_parts_ktx2 by blast
  have "path_suffix (cache_entry repr cache_dir guid) = (if x = [] then [] else ''.ktx2'')"
    using x by (simp add: path_suffix_def cache_entry_def path_name_truediv name_suffix_ktx2)
  then show ?thesis by (simp add: LDR_EXTS_def lower_def lower_char_def)
qed

lemma parse_parts_plain:
  "CHR ''/'' \<notin> set s \<Longrightarrow> s \<noteq> [] \<Longrightarrow> s \<noteq> ''.'' \<Longrightarrow> parse_parts s = ([], [s])"
  by (cases s) (auto simp: parse_parts_def splitroot_def split_sep_plain)

lemma truediv_plain:
  "CHR ''/'' \<notin> set s \<Longrightarrow> s \<noteq> [] \<Longrightarrow> s \<noteq> ''.'' \<Longrightarrow>
   truediv p s = \<lparr>p_root = p_root p, p_parts = p_parts p @ [s]\<rparr>"
  by (simp add: truediv_def parse_parts_plain)

lemma cache_entry_plain:
  "CHR ''/'' \<notin> set g \<Longrightarrow>
   cache_entry repr cache_dir (JStr g) =
     \<lparr>p_root = p_root cache_dir, p_parts = p_parts cache_dir @ [g @ ''.ktx2'']\<rparr>"
  by (simp add: cache_entry_def truediv_plain)

subsection \<open>The loops\<close>

lemma scan_metas_append:
  "scan_metas run repr basisu cache_dir st (xs @ ys) =
     (case scan_metas run repr basisu cache_dir st xs of
        Inl e \<Rightarrow> Inl e
      | Inr st' \<Rightarrow> scan_metas run repr basisu cache_dir st' ys)"
  by (induction xs arbitrary: st) (auto split: sum.splits)

lemma scan_metas_drop:
  assumes "\<And>st. loop_body run repr basisu cache_dir st mf = Inr st"
  shows "scan_metas run repr basisu cache_dir st (xs @ mf # ys) =
         scan_metas run repr basisu cache_dir st (xs @ ys)"
  by (simp add: scan_metas_append assms split: sum.splits)

lemma malformed_json_skipped:
  "loop_body run repr basisu cache_dir st (meta_path, Inl JSONDecodeError) = Inr st"
  by (simp add: loop_body_def read_task_def)

lemma read_task_wf: "read_task repr cache_dir mf = Inr (Some t) \<Longrightarrow> wf_task t"
  by (cases mf)
     (auto simp: read_task_def wf_task_def is_ldr_def ktx2_not_ldr split: sum.splits if_splits)

lemma tasks_of_wf: "t \<in> set (tasks_of repr c mfs) \<Longrightarrow> wf_task t"
  by (induction mfs) (auto split: sum.splits option.splits dest: read_task_wf)


lemma read_task_output:
  assumes "read_task repr cache_dir (meta_path, Inr (JObj kvs)) = Inr (Some t)"
      and "map_of kvs ''guid'' = Some g"
  shows "output_path t = cache_entry repr cache_dir g"
  using assms by (auto simp: read_task_def split: sum.splits if_splits)



lemma write_file_simps [simp]:
  "path_exists (write_file w p t) q = (if q = p then Inr True else path_exists w q)"
  "stat_mtime (write_file w p t) q = (if q = p then Some t else stat_mtime w q)"
  by (auto simp: write_file_def)

section \<open>The encoder command\<close>

text \<open>
  C1. For every combination of the four import settings, \<open>build_command\<close> returns exactly
  the sequence \<open><encoder> -ktx2 -ktx2_no_zstandard {-uastc|-etc1s} {-srgb|-linear} [-y_flip]
  [-mipmap] -quality <50|80> -effort 4 -file <asset> -output_file <output> -no_status_output\<close>
  in that order: \<open>-uastc\<close> and quality 50 exactly when \<open>normalMap\<close> is set, \<open>-srgb\<close>
  exactly when \<open>srgb\<close> is set, \<open>-y_flip\<close> exactly when \<open>flipY\<close> is set, \<open>-mipmap\<close>
  exactly when \<open>generateMipmaps\<close> is set; \<open>-effort 4\<close> and \<open>-no_status_output\<close> always.
\<close>

theorem build_command_sequence:
  "build_command basisu asset out sr nm fy gm =
     [str_path basisu, ''-ktx2'', ''-ktx2_no_zstandard'',
      (if nm then ''-uastc'' else ''-etc1s''),
      (if sr then ''-srgb'' else ''-linear'')]
     @ (if fy then [''-y_flip''] else [])
     @ (if gm then [''-mipmap''] else [])
     @ [''-quality'', (if nm then ''50'' else ''80''), ''-effort'', ''4'',
        ''-file'', str_path asset, ''-output_file'', str_path out, ''-no_status_output'']"
  by (cases fy; cases gm) (simp_all add: build_command_def Let_def)

theorem build_command_sequence_witness:
  "build_command (Path ''/opt/basisu'') (Path ''/proj/Assets/tex.png'')
       (Path ''/proj/Library/ImportCache/abc123.ktx2'') True True False True =
     [''/opt/basisu'', ''-ktx2'', ''-ktx2_no_zstandard'', ''-uastc'', ''-srgb'', ''-mipmap'',
      ''-quality'', ''50'', ''-effort'', ''4'', ''-file'', ''/proj/Assets/tex.png'',
      ''-output_file'', ''/proj/Library/ImportCache/abc123.ktx2'', ''-no_status_output'']"
  using build_command_sequence [of "Path ''/opt/basisu''" "Path ''/proj/Assets/tex.png''"
      "Path ''/proj/Library/ImportCache/abc123.ktx2''" True True False True]
  by (simp add: str_path_def Path_def parse_parts_def splitroot_def)

section \<open>Staleness\<close>



lemma long_guid_plain: "CHR ''/'' \<notin> set long_guid" "long_guid \<noteq> []"
  by (simp_all add: long_guid_def)

lemma long_entry:
  "cache_entry demo_repr demo_cache (JStr long_guid)
     = \<lparr>p_root = ''/'', p_parts = [''proj'', ''Library'', ''ImportCache'', long_guid @ ''.ktx2'']\<rparr>"
  by (simp add: cache_entry_plain long_guid_plain demo_paths path_eval)

lemma long_entry_raises:
  "path_exists demo_world (cache_entry demo_repr demo_cache (JStr long_guid)) = Inl OSError"
proof -
  have "name_too_long (cache_entry demo_repr demo_cache (JStr long_guid))"
    unfolding long_entry by (simp add: name_too_long_def long_guid_def)
  then show ?thesis by (simp add: demo_world_def)
qed

text \<open>
  C2. The claim is that \<open>should_encode\<close> returns "encode" exactly when the output file
  does not exist, a modification time cannot be retrieved, or the output is strictly older.
  The two calls of \<open>stat\<close> are guarded by \<open>except OSError\<close>, the call of \<open>exists\<close>
  before them is not: where \<open>exists\<close> raises, the function raises instead of returning
  "encode". So it does for the cache entry of a GUID of 300 letters, which does not exist
  and whose modification time cannot be retrieved.
\<close>

theorem should_encode_raises:
  "should_encode (w\<lparr>path_exists := (path_exists w)(out := Inl OSError)\<rparr>) asset out = Inl OSError
   \<and> path_exists demo_world (cache_entry demo_repr demo_cache (JStr long_guid)) = Inl OSError
   \<and> should_encode demo_world (Path ''/proj/Assets/tex.png'')
         (cache_entry demo_repr demo_cache (JStr long_guid)) = Inl OSError"
  by (simp add: should_encode_def long_entry_raises)

section \<open>Idempotence of a run\<close>

subsection \<open>What one successful encode preserves\<close>

lemma evolves_refl: "evolves w w" by (simp add: evolves_def)

lemma evolves_trans: "evolves a b \<Longrightarrow> evolves b c \<Longrightarrow> evolves a c"
  unfolding evolves_def by metis

lemma process_task_calls:
  "process_task run basisu st t = Inr st' \<Longrightarrow> set (calls st) \<subseteq> set (calls st')"
  by (auto simp: process_task_def Let_def split: if_splits sum.splits prod.splits)

lemma loop_body_calls:
  "loop_body run repr basisu c st mf = Inr st' \<Longrightarrow> set (calls st) \<subseteq> set (calls st')"
  by (auto simp: loop_body_def split: sum.splits option.splits dest: process_task_calls)

lemma scan_metas_calls:
  "scan_metas run repr basisu c st mfs = Inr s1 \<Longrightarrow> set (calls st) \<subseteq> set (calls s1)"
proof (induction mfs arbitrary: st)
  case Nil then show ?case by simp
next
  case (Cons mf mfs)
  then obtain st' where a: "loop_body run repr basisu c st mf = Inr st'"
    and b: "scan_metas run repr basisu c st' mfs = Inr s1"
    by (auto split: sum.splits)
  from loop_body_calls[OF a] Cons.IH[OF b] show ?case by blast
qed

lemma scan_dirs_step:
  assumes "scan_dirs env basisu c st (d # ds) = Inr s1"
  shows "(path_exists (fs st) d = Inr False \<and> scan_dirs env basisu c st ds = Inr s1)
       \<or> (path_exists (fs st) d = Inr True \<and>
           (\<exists>st'. scan_metas (run_subprocess env) (py_repr env) basisu c st (rglob_cmeta env d) = Inr st'
                 \<and> scan_dirs env basisu c st' ds = Inr s1))"
  using assms by (auto split: sum.splits if_splits)

lemma scan_dirs_calls:
  "scan_dirs env basisu c st ds = Inr s1 \<Longrightarrow> set (calls st) \<subseteq> set (calls s1)"
proof (induction ds arbitrary: st)
  case Nil then show ?case by simp
next
  case (Cons d ds)
  from scan_dirs_step[OF Cons.prems] show ?case
  proof (elim disjE conjE exE)
    assume "scan_dirs env basisu c st ds = Inr s1"
    then show ?thesis by (rule Cons.IH)
  next
    fix st'
    assume a: "scan_metas (run_subprocess env) (py_repr env) basisu c st (rglob_cmeta env d) = Inr st'"
      and b: "scan_dirs env basisu c st' ds = Inr s1"
    from scan_metas_calls[OF a] Cons.IH[OF b] show ?thesis by blast
  qed
qed

lemma fresh_iff:
  "fresh w t \<longleftrightarrow>
     path_exists w (output_path t) = Inr True
     \<and> (\<exists>t_out t_asset. stat_mtime w (output_path t) = Some t_out
           \<and> stat_mtime w (asset_path t) = Some t_asset \<and> \<not> t_out < t_asset)"
  by (auto simp: fresh_def should_encode_def split: sum.splits option.splits if_splits)

lemma process_task_ok:
  assumes run: "process_task run basisu st t = Inr st'"
      and ok: "\<forall>c \<in> set (calls st'). call_ok c"
      and wf: "wf_task t"
  shows "fresh (fs st') t \<and> evolves (fs st) (fs st')"
proof -
  from run obtain stale where se: "should_encode (fs st) (asset_path t) (output_path t) = Inr stale"
    by (auto simp: process_task_def split: sum.splits)
  show ?thesis
  proof (cases stale)
    case False
    with run se show ?thesis by (auto simp: process_task_def fresh_def evolves_refl)
  next
    case True
    let ?cmd = "build_command basisu (asset_path t) (output_path t)
                      (srgb t) (normal_map t) (flip_y t) (generate_mips t)"
    from run se True obtain r w' where rw: "subprocess_run run ?cmd (fs st) = (Inr r, w')"
      by (auto simp: process_task_def Let_def split: sum.splits prod.splits)
    let ?c = "\<lparr>call_task = t, call_cmd = ?cmd, call_before = fs st, call_result = r, call_after = w'\<rparr>"
    have fs': "fs st' = w'" and mem: "?c \<in> set (calls st')"
      using run se True rw by (auto simp: process_task_def Let_def split: if_splits)
    from ok mem have cok: "call_ok ?c" by blast
    then obtain a t' where a: "stat_mtime (fs st) (asset_path t) = Some a"
      and t': "stat_mtime w' (output_path t) = Some t'" and le: "a \<le> t'"
      and w': "w' = write_file (fs st) (output_path t) t'"
      by (auto simp: call_ok_def split: option.splits)
    have ne: "asset_path t \<noteq> output_path t" using wf by (auto simp: wf_task_def)
    have f: "fresh w' t" using a le ne by (simp add: w' fresh_iff)
    have e: "evolves (fs st) w'"
      unfolding evolves_def
    proof (intro conjI allI impI)
      fix p show "path_exists w' p = path_exists (fs st) p \<or> path_exists w' p = Inr True"
        by (simp add: w')
    next
      fix p assume "path_exists (fs st) p = Inr True" then show "path_exists w' p = Inr True"
        by (simp add: w')
    next
      fix T assume T: "wf_task T \<and> fresh (fs st) T"
      then have neT: "asset_path T \<noteq> output_path t" using wf by (auto simp: wf_task_def)
      from T obtain o' aT where ex: "path_exists (fs st) (output_path T) = Inr True"
        and o': "stat_mtime (fs st) (output_path T) = Some o'"
        and aT: "stat_mtime (fs st) (asset_path T) = Some aT" and nlt: "\<not> o' < aT"
        by (auto simp: fresh_iff)
      show "fresh w' T"
      proof (cases "output_path T = output_path t")
        case False
        then show ?thesis using ex o' aT nlt neT by (simp add: w' fresh_iff)
      next
        case same: True
        from se True ex o' a same have "o' < a" by (simp add: should_encode_def)
        with le nlt have "\<not> t' < aT" by simp
        then show ?thesis using same aT neT by (simp add: w' fresh_iff)
      qed
    qed
    show ?thesis using f e fs' by simp
  qed
qed

subsection \<open>The first run leaves every candidate up to date\<close>

lemma scan_metas_ok:
  assumes "scan_metas run repr basisu c st mfs = Inr s1"
      and "\<forall>k \<in> set (calls s1). call_ok k"
  shows "evolves (fs st) (fs s1)
       \<and> (\<forall>t \<in> set (tasks_of repr c mfs). fresh (fs s1) t)
       \<and> (\<forall>mf \<in> set mfs. \<exists>r. read_task repr c mf = Inr r)"
  using assms
proof (induction mfs arbitrary: st)
  case Nil
  then show ?case by (simp add: evolves_refl)
next
  case (Cons mf mfs)
  from Cons.prems(1) obtain st' where a: "loop_body run repr basisu c st mf = Inr st'"
    and b: "scan_metas run repr basisu c st' mfs = Inr s1"
    by (auto split: sum.splits)
  note ih = Cons.IH[OF b Cons.prems(2)]
  have ok': "\<forall>k \<in> set (calls st'). call_ok k"
    using scan_metas_calls[OF b] Cons.prems(2) by blast
  from a obtain r where r: "read_task repr c mf = Inr r"
    by (auto simp: loop_body_def split: sum.splits)
  show ?case
  proof (cases r)
    case None
    with a r have "st' = st" by (simp add: loop_body_def)
    with ih r None show ?thesis by simp
  next
    case (Some t)
    with a r have p: "process_task run basisu st t = Inr st'" by (simp add: loop_body_def)
    have wf: "wf_task t" using r Some read_task_wf by blast
    from process_task_ok[OF p ok' wf] have f: "fresh (fs st') t" and e: "evolves (fs st) (fs st')"
      by simp_all
    from ih have e2: "evolves (fs st') (fs s1)" by simp
    then have "fresh (fs s1) t" using f wf by (auto simp: evolves_def)
    with ih r Some evolves_trans[OF e e2] show ?thesis by simp
  qed
qed

lemma scan_dirs_evolves:
  assumes "scan_dirs env basisu c st ds = Inr s1"
      and "\<forall>k \<in> set (calls s1). call_ok k"
  shows "evolves (fs st) (fs s1)"
  using assms(1)
proof (induction ds arbitrary: st)
  case Nil
  then show ?case by (simp add: evolves_refl)
next
  case (Cons d ds)
  from scan_dirs_step[OF Cons.prems] show ?case
  proof (elim disjE conjE exE)
    assume "scan_dirs env basisu c st ds = Inr s1"
    then show ?thesis by (rule Cons.IH)
  next
    fix st'
    assume a: "scan_metas (run_subprocess env) (py_repr env) basisu c st (rglob_cmeta env d) = Inr st'"
      and b: "scan_dirs env basisu c st' ds = Inr s1"
    have "\<forall>k \<in> set (calls st'). call_ok k"
      using scan_dirs_calls[OF b] assms(2) by blast
    from scan_metas_ok[OF a this] have "evolves (fs st) (fs st')" by simp
    with Cons.IH[OF b] show ?thesis by (blast intro: evolves_trans)
  qed
qed

lemma evolves_keeps_answer:
  assumes "evolves a b" "evolves b c" "path_exists c p = path_exists a p"
  shows "path_exists c p = path_exists b p"
  using assms unfolding evolves_def by metis

lemma scan_dirs_ok:
  assumes "scan_dirs env basisu c st ds = Inr s1"
      and "\<forall>k \<in> set (calls s1). call_ok k"
      and "\<forall>d \<in> set ds. path_exists (fs s1) d = path_exists (fs st) d"
  shows "evolves (fs st) (fs s1)
       \<and> (\<forall>t \<in> set (candidates env c (fs s1) ds). fresh (fs s1) t)
       \<and> (\<forall>d \<in> set ds. \<exists>b. path_exists (fs s1) d = Inr b)
       \<and> (\<forall>d \<in> set ds. path_exists (fs s1) d = Inr True \<longrightarrow>
             (\<forall>mf \<in> set (rglob_cmeta env d). \<exists>r. read_task (py_repr env) c mf = Inr r))"
  using assms
proof (induction ds arbitrary: st)
  case Nil
  then show ?case by (simp add: evolves_refl)
next
  case (Cons d ds)
  have same: "path_exists (fs s1) d = path_exists (fs st) d" using Cons.prems(3) by simp
  from scan_dirs_step[OF Cons.prems(1)] show ?case
  proof (elim disjE conjE exE)
    assume no: "path_exists (fs st) d = Inr False" and b: "scan_dirs env basisu c st ds = Inr s1"
    have h: "\<forall>d \<in> set ds. path_exists (fs s1) d = path_exists (fs st) d"
      using Cons.prems(3) by simp
    from Cons.IH[OF b Cons.prems(2) h] same no show ?thesis by auto
  next
    fix st'
    assume yes: "path_exists (fs st) d = Inr True"
      and a: "scan_metas (run_subprocess env) (py_repr env) basisu c st (rglob_cmeta env d) = Inr st'"
      and b: "scan_dirs env basisu c st' ds = Inr s1"
    have ok': "\<forall>k \<in> set (calls st'). call_ok k"
      using scan_dirs_calls[OF b] Cons.prems(2) by blast
    from scan_metas_ok[OF a ok'] have e: "evolves (fs st) (fs st')"
      and f: "\<forall>t \<in> set (tasks_of (py_repr env) c (rglob_cmeta env d)). fresh (fs st') t"
      and r: "\<forall>mf \<in> set (rglob_cmeta env d). \<exists>r. read_task (py_repr env) c mf = Inr r"
      by simp_all
    have e2: "evolves (fs st') (fs s1)"
      using scan_dirs_evolves[OF b Cons.prems(2)] .
    have h: "\<forall>d \<in> set ds. path_exists (fs s1) d = path_exists (fs st') d"
      using Cons.prems(3) evolves_keeps_answer[OF e e2] by simp
    note ih = Cons.IH[OF b Cons.prems(2) h]
    have wf: "\<forall>t \<in> set (tasks_of (py_repr env) c (rglob_cmeta env d)). wf_task t"
      using tasks_of_wf by blast
    have f1: "\<forall>t \<in> set (tasks_of (py_repr env) c (rglob_cmeta env d)). fresh (fs s1) t"
      using f wf e2 by (auto simp: evolves_def)
    show ?thesis using ih f1 r evolves_trans[OF e e2] same yes by auto
  qed
qed

lemma scan_metas_fresh:
  assumes "\<forall>t \<in> set (tasks_of repr c mfs). fresh (fs st) t"
      and "\<forall>mf \<in> set mfs. \<exists>r. read_task repr c mf = Inr r"
  shows "scan_metas run repr basisu c st mfs =
           Inr (st\<lparr>skipped := skipped st + int (length (tasks_of repr c mfs))\<rparr>)"
  using assms
proof (induction mfs arbitrary: st)
  case Nil
  then show ?case by simp
next
  case (Cons mf mfs)
  from Cons.prems(2) obtain r where r: "read_task repr c mf = Inr r" by auto
  show ?case
  proof (cases r)
    case None
    with r Cons show ?thesis by (simp add: loop_body_def)
  next
    case (Some t)
    with r Cons.prems(1) have f: "fresh (fs st) t" by simp
    have l: "loop_body run repr basisu c st mf = Inr (st\<lparr>skipped := skipped st + 1\<rparr>)"
      using r Some f by (simp add: loop_body_def process_task_def fresh_def)
    have "scan_metas run repr basisu c (st\<lparr>skipped := skipped st + 1\<rparr>) mfs =
           Inr (st\<lparr>skipped := skipped st + 1\<rparr>\<lparr>skipped := skipped (st\<lparr>skipped := skipped st + 1\<rparr>)
                  + int (length (tasks_of repr c mfs))\<rparr>)"
      using Cons.prems r Some by (intro Cons.IH) simp_all
    then show ?thesis using l r Some by simp
  qed
qed

lemma scan_dirs_fresh:
  assumes "\<forall>t \<in> set (candidates env c (fs st) ds). fresh (fs st) t"
      and "\<forall>d \<in> set ds. \<exists>b. path_exists (fs st) d = Inr b"
      and "\<forall>d \<in> set ds. path_exists (fs st) d = Inr True \<longrightarrow>
             (\<forall>mf \<in> set (rglob_cmeta env d). \<exists>r. read_task (py_repr env) c mf = Inr r)"
  shows "scan_dirs (env\<lparr>run_subprocess := run2\<rparr>) basisu c st ds =
           Inr (st\<lparr>skipped := skipped st + int (length (candidates env c (fs st) ds))\<rparr>)"
  using assms
proof (induction ds arbitrary: st)
  case Nil
  then show ?case by simp
next
  case (Cons d ds)
  from Cons.prems(2) obtain b where b: "path_exists (fs st) d = Inr b" by auto
  show ?case
  proof (cases b)
    case False
    with b Cons show ?thesis by simp
  next
    case True
    let ?n = "int (length (tasks_of (py_repr env) c (rglob_cmeta env d)))"
    let ?st' = "st\<lparr>skipped := skipped st + ?n\<rparr>"
    have m: "scan_metas run2 (py_repr env) basisu c st (rglob_cmeta env d) = Inr ?st'"
      using Cons.prems True b by (intro scan_metas_fresh) simp_all
    have "scan_dirs (env\<lparr>run_subprocess := run2\<rparr>) basisu c ?st' ds =
           Inr (?st'\<lparr>skipped := skipped ?st' + int (length (candidates env c (fs ?st') ds))\<rparr>)"
      using Cons.prems by (intro Cons.IH) simp_all
    then show ?thesis using m True b by (simp add: add.assoc)
  qed
qed

text \<open>
  C3. When a first run completes and every encoder process it started succeeded, each
  writing its output file with a modification time not earlier than its source's (and
  nothing else), a second run over the unchanged sources (the same metadata, and the asset
  directories that existed before the first run) starts no encoder process, whatever the
  encoder would do, and counts every candidate record as skipped.
\<close>

theorem second_run_skips_all:
  assumes "scan_dirs env basisu cache_dir (start_state w0) dirs = Inr s1"
      and "\<forall>k \<in> set (calls s1). call_ok k"
      and "\<forall>d \<in> set dirs. path_exists (fs s1) d = path_exists w0 d"
  shows "\<exists>s2. scan_dirs (env\<lparr>run_subprocess := run2\<rparr>) basisu cache_dir (start_state (fs s1)) dirs = Inr s2
            \<and> calls s2 = []
            \<and> encoded s2 = 0
            \<and> skipped s2 = int (length (candidates env cache_dir (fs s1) dirs))
            \<and> err_lines s2 = []
            \<and> fs s2 = fs s1"
proof -
  have h: "\<forall>d \<in> set dirs. path_exists (fs s1) d = path_exists (fs (start_state w0)) d"
    using assms(3) by (simp add: start_state_def)
  from scan_dirs_ok[OF assms(1) assms(2) h]
  have f: "\<forall>t \<in> set (candidates env cache_dir (fs s1) dirs). fresh (fs s1) t"
    and e: "\<forall>d \<in> set dirs. \<exists>b. path_exists (fs s1) d = Inr b"
    and r: "\<forall>d \<in> set dirs. path_exists (fs s1) d = Inr True \<longrightarrow>
             (\<forall>mf \<in> set (rglob_cmeta env d). \<exists>r. read_task (py_repr env) cache_dir mf = Inr r)"
    by simp_all
  have "scan_dirs (env\<lparr>run_subprocess := run2\<rparr>) basisu cache_dir (start_state (fs s1)) dirs =
         Inr ((start_state (fs s1))\<lparr>skipped := skipped (start_state (fs s1))
               + int (length (candidates env cache_dir (fs (start_state (fs s1))) dirs))\<rparr>)"
    using f e r by (intro scan_dirs_fresh) (simp_all add: start_state_def)
  then show ?thesis by (simp add: start_state_def)
qed

lemma read_demo_meta:
  "read_task demo_repr demo_cache (demo_meta ''tex.png'' (JStr ''abc123'') (JObj []))
     = Inr (Some (demo_task ''tex.png'' ''abc123.ktx2'' False))"
  by (simp add: read_task_def demo_meta_def demo_task_def import_settings_def setting_def py_or_def
        cache_entry_def demo_paths path_eval text_eval)

lemma demo_first_run_eval:
  "scan_dirs (demo_env (writing_encoder 7) [demo_meta ''tex.png'' (JStr ''abc123'') (JObj [])])
      demo_basisu demo_cache (start_state demo_world) [demo_assets] = Inr demo_first_run"
proof -
  have "loop_body (writing_encoder 7) demo_repr demo_basisu demo_cache
          (start_state demo_world) (demo_meta ''tex.png'' (JStr ''abc123'') (JObj []))
        = Inr demo_first_run"
    unfolding loop_body_def read_demo_meta
    by (simp add: process_task_def should_encode_def subprocess_run_def demo_task_def
          start_state_def demo_world_def name_too_long_def writing_encoder_def demo_first_run_def
          build_command_def demo_paths path_eval Let_def)
  moreover have "path_exists demo_world demo_assets = Inr True"
    by (simp add: demo_world_def name_too_long_def demo_paths path_eval)
  ultimately show ?thesis
    by (simp add: demo_env_def start_state_def demo_paths)
qed

theorem second_run_skips_all_witness:
  "scan_dirs (demo_env (writing_encoder 7) [demo_meta ''tex.png'' (JStr ''abc123'') (JObj [])])
      demo_basisu demo_cache (start_state demo_world) [demo_assets] = Inr demo_first_run
   \<and> list_all call_ok (calls demo_first_run)
   \<and> path_exists (fs demo_first_run) demo_assets = path_exists demo_world demo_assets
   \<and> (\<exists>s2. scan_dirs (demo_env (writing_encoder 7)
                          [demo_meta ''tex.png'' (JStr ''abc123'') (JObj [])]
                        \<lparr>run_subprocess := failing_encoder\<rparr>)
                demo_basisu demo_cache (start_state (fs demo_first_run)) [demo_assets] = Inr s2
            \<and> calls s2 = [] \<and> encoded s2 = 0 \<and> skipped s2 = 1 \<and> err_lines s2 = []
            \<and> fs s2 = fs demo_first_run)"
proof -
  let ?env = "demo_env (writing_encoder 7) [demo_meta ''tex.png'' (JStr ''abc123'') (JObj [])]"
  have h2: "\<forall>k \<in> set (calls demo_first_run). call_ok k"
    by (simp add: demo_first_run_def call_ok_def demo_task_def demo_world_def write_file_def path_eval)
  have h3: "\<forall>d \<in> set [demo_assets]. path_exists (fs demo_first_run) d = path_exists demo_world d"
    by (simp add: demo_first_run_def demo_world_def write_file_def demo_paths path_eval)
  have "path_exists (fs demo_first_run) demo_assets = Inr True"
    by (simp add: demo_first_run_def demo_world_def name_too_long_def write_file_def demo_paths
          path_eval)
  then have n: "candidates ?env demo_cache (fs demo_first_run) [demo_assets]
                  = [demo_task ''tex.png'' ''abc123.ktx2'' False]"
    by (simp add: demo_env_def read_demo_meta demo_paths [symmetric])
  from second_run_skips_all [OF demo_first_run_eval h2 h3, of failing_encoder]
  obtain s2 where s2:
    "scan_dirs (?env\<lparr>run_subprocess := failing_encoder\<rparr>) demo_basisu demo_cache
       (start_state (fs demo_first_run)) [demo_assets] = Inr s2"
    "calls s2 = []" "encoded s2 = 0"
    "skipped s2 = int (length (candidates ?env demo_cache (fs demo_first_run) [demo_assets]))"
    "err_lines s2 = []" "fs s2 = fs demo_first_run"
    by blast
  have "skipped s2 = 1" unfolding s2(4) n by simp
  with s2 demo_first_run_eval h2 h3 show ?thesis by (auto simp: list_all_iff)
qed

section \<open>Records that are filtered out\<close>

text \<open>
  C4. A metadata record whose \<open>type\<close> is not \<open>"texture"\<close>, or that has no \<open>guid\<close>
  field, is no candidate: the loop body leaves the whole state as it is (no encoder process,
  no change to the file system, neither counter moved), and a run over a list of metadata
  files is the run over the list without that record.
\<close>

theorem excluded_record:
  assumes "map_of kvs ''type'' \<noteq> Some (JStr ''texture'') \<or> map_of kvs ''guid'' = None"
  shows "read_task repr cache_dir (meta_path, Inr (JObj kvs)) = Inr None
       \<and> loop_body run repr basisu cache_dir st (meta_path, Inr (JObj kvs)) = Inr st
       \<and> scan_metas run repr basisu cache_dir st (before @ (meta_path, Inr (JObj kvs)) # after) =
           scan_metas run repr basisu cache_dir st (before @ after)"
proof -
  have r: "read_task repr cache_dir (meta_path, Inr (JObj kvs)) = Inr None"
    using assms by (auto simp: read_task_def split: option.splits)
  have l: "\<And>s. loop_body run repr basisu cache_dir s (meta_path, Inr (JObj kvs)) = Inr s"
    by (simp add: loop_body_def r)
  show ?thesis
    using r l scan_metas_drop [of run repr basisu cache_dir "(meta_path, Inr (JObj kvs))" st before after]
    by simp
qed

theorem excluded_record_witness:
  "read_task demo_repr demo_cache material_meta = Inr None
   \<and> loop_body (writing_encoder 7) demo_repr demo_basisu demo_cache (start_state demo_world)
        material_meta = Inr (start_state demo_world)
   \<and> scan_metas (writing_encoder 7) demo_repr demo_basisu demo_cache (start_state demo_world)
        ([demo_meta ''tex.png'' (JStr ''abc123'') (JObj [])] @ material_meta # [no_guid_meta]) =
      scan_metas (writing_encoder 7) demo_repr demo_basisu demo_cache (start_state demo_world)
        ([demo_meta ''tex.png'' (JStr ''abc123'') (JObj [])] @ [no_guid_meta])
   \<and> read_task demo_repr demo_cache no_guid_meta = Inr None
   \<and> loop_body (writing_encoder 7) demo_repr demo_basisu demo_cache (start_state demo_world)
        no_guid_meta = Inr (start_state demo_world)"
proof -
  have h1: "map_of [(''type'', JStr ''material''), (''guid'', JStr ''m1'')] ''type''
              \<noteq> Some (JStr ''texture'')
      \<or> map_of [(''type'', JStr ''material''), (''guid'', JStr ''m1'')] ''guid'' = None"
    by simp
  have h2: "map_of [(''type'', JStr ''texture'')] ''type'' \<noteq> Some (JStr ''texture'')
      \<or> map_of [(''type'', JStr ''texture'')] ''guid'' = None"
    by simp
  show ?thesis
    using excluded_record [OF h1, of demo_repr demo_cache "Path ''/proj/Assets/stone.mat.cmeta''"
        "writing_encoder 7" demo_basisu "start_state demo_world"
        "[demo_meta ''tex.png'' (JStr ''abc123'') (JObj [])]" "[no_guid_meta]"]
      excluded_record [OF h2, of demo_repr demo_cache "Path ''/proj/Assets/wall.png.cmeta''"
        "writing_encoder 7" demo_basisu "start_state demo_world" "[]" "[]"]
    unfolding material_meta_def no_guid_meta_def by blast
qed

text \<open>
  C9. A metadata record whose \<open>guid\<close> is present but false in Python's sense (the empty
  string, \<open>0\<close>, \<open>null\<close>, \<open>false\<close>, an empty list or object) is excluded exactly like a
  record with no \<open>guid\<close>: no encoder process, no cache entry, neither counter moved.
\<close>

theorem falsy_guid_excluded:
  assumes "map_of kvs ''guid'' = Some g" and "\<not> truthy g"
  shows "read_task repr cache_dir (meta_path, Inr (JObj kvs)) = Inr None
       \<and> loop_body run repr basisu cache_dir st (meta_path, Inr (JObj kvs)) = Inr st
       \<and> scan_metas run repr basisu cache_dir st (before @ (meta_path, Inr (JObj kvs)) # after) =
           scan_metas run repr basisu cache_dir st (before @ after)
       \<and> read_task repr cache_dir (meta_path, Inr (JObj kvs)) =
           read_task repr cache_dir (meta_path, Inr (JObj [(''type'', JStr ''texture'')]))"
proof -
  have r: "read_task repr cache_dir (meta_path, Inr (JObj kvs)) = Inr None"
    using assms by (auto simp: read_task_def split: option.splits)
  have n: "read_task repr cache_dir (meta_path, Inr (JObj [(''type'', JStr ''texture'')])) = Inr None"
    by (simp add: read_task_def)
  have l: "\<And>s. loop_body run repr basisu cache_dir s (meta_path, Inr (JObj kvs)) = Inr s"
    by (simp add: loop_body_def r)
  show ?thesis
    using r n l scan_metas_drop [of run repr basisu cache_dir "(meta_path, Inr (JObj kvs))" st before after]
    by simp
qed

theorem falsy_guid_excluded_witness:
  "read_task demo_repr demo_cache empty_guid_meta = Inr None
   \<and> loop_body (writing_encoder 7) demo_repr demo_basisu demo_cache (start_state demo_world)
        empty_guid_meta = Inr (start_state demo_world)
   \<and> scan_metas (writing_encoder 7) demo_repr demo_basisu demo_cache (start_state demo_world)
        ([] @ empty_guid_meta # [demo_meta ''tex.png'' (JStr ''abc123'') (JObj [])]) =
      scan_metas (writing_encoder 7) demo_repr demo_basisu demo_cache (start_state demo_world)
        ([] @ [demo_meta ''tex.png'' (JStr ''abc123'') (JObj [])])"
proof -
  have h1: "map_of [(''type'', JStr ''texture''), (''guid'', JStr [])] ''guid'' = Some (JStr [])"
    by simp
  have h2: "\<not> truthy (JStr [])" by simp
  show ?thesis
    using falsy_guid_excluded [OF h1 h2, of demo_repr demo_cache "Path ''/proj/Assets/wall.png.cmeta''"
        "writing_encoder 7" demo_basisu "start_state demo_world" "[]"
        "[demo_meta ''tex.png'' (JStr ''abc123'') (JObj [])]"]
    unfolding empty_guid_meta_def by blast
qed

section \<open>The encoder's exit status\<close>

lemma read_demo_meta_wall:
  "read_task demo_repr demo_cache (demo_meta ''wall.jpg'' (JStr ''def456'') (JObj []))
     = Inr (Some (demo_task ''wall.jpg'' ''def456.ktx2'' False))"
  by (simp add: read_task_def demo_meta_def demo_task_def import_settings_def setting_def py_or_def
        cache_entry_def demo_paths path_eval text_eval)












section \<open>Metadata that cannot be parsed\<close>

text \<open>
  Text that is not JSON is skipped (\<open>malformed_json_skipped\<close> above). Only
  \<open>JSONDecodeError\<close> is caught, though, and the value is used as a dict without a check.

  C6. The claim is that every metadata file whose content cannot be parsed as a structured
  record is silently left out and the run goes on. The loop does not do that for a file
  whose bytes are not UTF-8 (\<open>read_text\<close> raises \<open>UnicodeDecodeError\<close>), nor for a
  file that holds JSON which is no object, such as \<open>[]\<close> (\<open>meta.get\<close> raises
  \<open>AttributeError\<close>): the exception leaves the loop, and no remaining file is processed.
\<close>

theorem unparsable_metadata_aborts:
  "scan_metas run repr basisu cache_dir st ((meta_path, Inl UnicodeDecodeError) # rest)
     = Inl UnicodeDecodeError
   \<and> scan_metas run repr basisu cache_dir st ((meta_path, Inr (JArr [])) # rest)
     = Inl AttributeError"
  by (simp add: loop_body_def read_task_def)

section \<open>Import settings\<close>




section \<open>Cache entries\<close>

text \<open>
  The claim C8 is that any two candidate records with distinct GUIDs have distinct output
  paths. A GUID is whatever JSON value the metadata holds, and it becomes a path through an
  f-string and \<open>/\<close>, which drops single dots and empty components: the GUIDs \<open>a\<close> and
  \<open>./a\<close> share the cache entry \<open>a.ktx2\<close>.
\<close>

theorem guid_collision:
  "JStr ''a'' \<noteq> JStr ''./a''
   \<and> read_task demo_repr demo_cache (demo_meta ''tex.png'' (JStr ''a'') (JObj []))
       = Inr (Some (demo_task ''tex.png'' ''a.ktx2'' False))
   \<and> read_task demo_repr demo_cache (demo_meta ''wall.png'' (JStr ''./a'') (JObj []))
       = Inr (Some (demo_task ''wall.png'' ''a.ktx2'' False))
   \<and> output_path (demo_task ''tex.png'' ''a.ktx2'' False) = Path ''/proj/Library/ImportCache/a.ktx2''
   \<and> output_path (demo_task ''wall.png'' ''a.ktx2'' False) = Path ''/proj/Library/ImportCache/a.ktx2''"
  by (simp add: read_task_def demo_meta_def demo_task_def import_settings_def setting_def py_or_def
        cache_entry_def demo_paths path_eval text_eval)

text \<open>So do the number \<open>1\<close> and the string \<open>"1"\<close>.\<close>

lemma guid_collision_number_string:
  "cache_entry repr cache_dir (JInt 1) = cache_entry repr cache_dir (JStr ''1'')"
  by (simp add: cache_entry_def str_int_def digits.simps digit_char_def)

text \<open>
  C8, amended. Two candidate records whose GUIDs are distinct strings without \<open>/\<close> have
  distinct output paths, each \<open><library>/ImportCache/<guid>.ktx2\<close>; so an encode that
  writes one record's output file leaves the other record's cache entry as it was.
\<close>

theorem distinct_guids_distinct_entries:
  assumes "read_task repr (truediv library_dir ''ImportCache'') (meta1, Inr (JObj kvs1)) = Inr (Some t1)"
      and "read_task repr (truediv library_dir ''ImportCache'') (meta2, Inr (JObj kvs2)) = Inr (Some t2)"
      and "map_of kvs1 ''guid'' = Some (JStr g1)"
      and "map_of kvs2 ''guid'' = Some (JStr g2)"
      and "CHR ''/'' \<notin> set g1" and "CHR ''/'' \<notin> set g2"
      and "g1 \<noteq> g2"
  shows "output_path t1 = \<lparr>p_root = p_root library_dir,
                           p_parts = p_parts library_dir @ [''ImportCache'', g1 @ ''.ktx2'']\<rparr>
       \<and> output_path t2 = \<lparr>p_root = p_root library_dir,
                           p_parts = p_parts library_dir @ [''ImportCache'', g2 @ ''.ktx2'']\<rparr>
       \<and> output_path t1 \<noteq> output_path t2
       \<and> path_exists (write_file w (output_path t1) mtime) (output_path t2) = path_exists w (output_path t2)
       \<and> stat_mtime (write_file w (output_path t1) mtime) (output_path t2) = stat_mtime w (output_path t2)"
proof -
  have c: "truediv library_dir ''ImportCache'' =
             \<lparr>p_root = p_root library_dir, p_parts = p_parts library_dir @ [''ImportCache'']\<rparr>"
    by (simp add: truediv_plain)
  have o1: "output_path t1 = cache_entry repr (truediv library_dir ''ImportCache'') (JStr g1)"
    using assms(1,3) by (rule read_task_output)
  have o2: "output_path t2 = cache_entry repr (truediv library_dir ''ImportCache'') (JStr g2)"
    using assms(2,4) by (rule read_task_output)
  have e1: "output_path t1 = \<lparr>p_root = p_root library_dir,
                           p_parts = p_parts library_dir @ [''ImportCache'', g1 @ ''.ktx2'']\<rparr>"
    using assms(5) by (simp add: o1 cache_entry_plain c)
  have e2: "output_path t2 = \<lparr>p_root = p_root library_dir,
                           p_parts = p_parts library_dir @ [''ImportCache'', g2 @ ''.ktx2'']\<rparr>"
    using assms(6) by (simp add: o2 cache_entry_plain c)
  have ne: "output_path t1 \<noteq> output_path t2" using assms(7) by (simp add: e1 e2)
  show ?thesis using e1 e2 ne by simp
qed

lemma demo_cache_eq: "truediv demo_library ''ImportCache'' = demo_cache"
  by (simp add: demo_paths path_eval)

theorem distinct_guids_distinct_entries_witness:
  "output_path (demo_task ''tex.png'' ''abc123.ktx2'' False)
     = \<lparr>p_root = p_root demo_library,
        p_parts = p_parts demo_library @ [''ImportCache'', ''abc123'' @ ''.ktx2'']\<rparr>
   \<and> output_path (demo_task ''wall.jpg'' ''def456.ktx2'' False)
     = \<lparr>p_root = p_root demo_library,
        p_parts = p_parts demo_library @ [''ImportCache'', ''def456'' @ ''.ktx2'']\<rparr>
   \<and> output_path (demo_task ''tex.png'' ''abc123.ktx2'' False)
       \<noteq> output_path (demo_task ''wall.jpg'' ''def456.ktx2'' False)
   \<and> stat_mtime (write_file demo_world (output_path (demo_task ''tex.png'' ''abc123.ktx2'' False)) 7)
        (output_path (demo_task ''wall.jpg'' ''def456.ktx2'' False))
       = stat_mtime demo_world (output_path (demo_task ''wall.jpg'' ''def456.ktx2'' False))"
proof -
  have g: "map_of [(''type'', JStr ''texture''), (''guid'', JStr ''abc123''), (''import'', JObj [])]
             ''guid'' = Some (JStr ''abc123'')"
    "map_of [(''type'', JStr ''texture''), (''guid'', JStr ''def456''), (''import'', JObj [])]
             ''guid'' = Some (JStr ''def456'')"
    "CHR ''/'' \<notin> set ''abc123''" "CHR ''/'' \<notin> set ''def456''" "''abc123'' \<noteq> ''def456''"
    by simp_all
  show ?thesis
    using distinct_guids_distinct_entries
      [OF read_demo_meta [unfolded demo_meta_def, folded demo_cache_eq]
          read_demo_meta_wall [unfolded demo_meta_def, folded demo_cache_eq] g,
       of demo_world 7]
    by blast
qed

section \<open>The exit status of \<open>main\<close>\<close>



























end
